theory Spec2Isabelle
  imports Main
begin

section \<open>JavaScript values and \<open>JSON.stringify\<close>\<close>

text \<open>
  The plugin builds its cache keys from plain JavaScript data: the printed query document,
  the operation name, the request's variables and whatever the \<open>extraCacheKeyData\<close> hook
  returns. Such a value is \<open>undefined\<close>, \<open>null\<close>, a boolean, a number, a string, an array
  or an object. An object is the list of its own enumerable properties in the order in
  which JavaScript enumerates them, which for keys that are not array indices is the order
  of insertion; its keys are pairwise distinct. Numbers are the integers that JavaScript
  holds exactly and prints in plain decimal, those of magnitude below \<open>2 ^ 53\<close> (the
  session mode tags are such numbers); \<open>JNum\<close> of a larger integer, a fraction, \<open>NaN\<close>
  and the infinities stand for no value of the plugin. Strings are sequences of 8-bit
  characters.
\<close>

datatype jsval =
    JUndefined
  | JNull
  | JBool bool
  | JNum int
  | JStr string
  | JArr "jsval list"
  | JObj "(string \<times> jsval) list"

type_synonym js_object = "(string \<times> jsval) list"

text \<open>\<open>ToBoolean\<close>, used by \<open>||\<close> and \<open>!\<close>.\<close>

fun truthy :: "jsval \<Rightarrow> bool" where
  "truthy JUndefined = False"
| "truthy JNull = False"
| "truthy (JBool b) = b"
| "truthy (JNum n) = (n \<noteq> 0)"
| "truthy (JStr s) = (s \<noteq> [])"
| "truthy (JArr xs) = True"
| "truthy (JObj ps) = True"

text \<open>
  Writing a property of an object: the value of an existing key is replaced where the key
  stands, a new key is added at the end. The object spread \<open>{ ...o, k }\<close> copies the
  properties of \<open>o\<close> in order and then writes \<open>k\<close>.
\<close>

fun set_prop :: "js_object \<Rightarrow> string \<Rightarrow> jsval \<Rightarrow> js_object" where
  "set_prop [] k v = [(k, v)]"
| "set_prop ((k', v') # ps) k v =
     (if k' = k then (k, v) # ps else (k', v') # set_prop ps k v)"

fun get_prop :: "js_object \<Rightarrow> string \<Rightarrow> jsval" where
  "get_prop [] k = JUndefined"
| "get_prop ((k', v') # ps) k = (if k' = k then v' else get_prop ps k)"

definition has_prop :: "js_object \<Rightarrow> string \<Rightarrow> bool" where
  "has_prop ps k = (k \<in> set (map fst ps))"

subsection \<open>Numbers and strings in JSON text\<close>

definition hex_digit :: "nat \<Rightarrow> char" where
  "hex_digit d = (''0123456789abcdef'' ! (d mod 16))"

fun digits :: "nat \<Rightarrow> string" where
  "digits n = (if n < 10 then [hex_digit n] else digits (n div 10) @ [hex_digit (n mod 10)])"

declare digits.simps [simp del]

text \<open>
  \<open>Number::toString\<close> on the integers of magnitude below \<open>2 ^ 53\<close>: the decimal digits,
  after a minus sign for a negative number.
\<close>

definition Number_toString :: "int \<Rightarrow> string" where
  "Number_toString i = (if i < 0 then ''-'' @ digits (nat (- i)) else digits (nat i))"

text \<open>
  \<open>QuoteJSONString\<close>: the double quote and the backslash are escaped, the control
  characters have their short escapes or \<open>\u00XX\<close>, every other character stands for itself.
\<close>

definition quote_char :: "char \<Rightarrow> string" where
  "quote_char c =
    (if c = CHR 0x08 then [CHR 0x5C, CHR ''b'']
     else if c = CHR 0x09 then [CHR 0x5C, CHR ''t'']
     else if c = CHR 0x0A then [CHR 0x5C, CHR ''n'']
     else if c = CHR 0x0C then [CHR 0x5C, CHR ''f'']
     else if c = CHR 0x0D then [CHR 0x5C, CHR ''r'']
     else if c = CHR 0x22 then [CHR 0x5C, CHR 0x22]
     else if c = CHR 0x5C then [CHR 0x5C, CHR 0x5C]
     else if (of_char c :: nat) < 32
       then [CHR 0x5C, CHR ''u'', CHR ''0'', CHR ''0'',
             hex_digit (of_char c div 16), hex_digit (of_char c mod 16)]
     else [c])"

definition QuoteJSONString :: "string \<Rightarrow> string" where
  "QuoteJSONString s = [CHR 0x22] @ concat (map quote_char s) @ [CHR 0x22]"

fun join_with :: "string \<Rightarrow> string list \<Rightarrow> string" where
  "join_with sep [] = []"
| "join_with sep [x] = x"
| "join_with sep (x # y # ys) = x @ sep @ join_with sep (y # ys)"

subsection \<open>Serialization\<close>

text \<open>
  \<open>SerializeJSONProperty\<close> has no result for \<open>undefined\<close> (\<open>None\<close>). An object leaves out
  the properties whose value has no serialization; an array writes \<open>null\<close> for them.
  No white space is inserted, as \<open>JSON.stringify\<close> is called with one argument.
\<close>

fun SerializeJSONProperty :: "jsval \<Rightarrow> string option"
  and SerializeJSONArray_elements :: "jsval list \<Rightarrow> string list"
  and SerializeJSONObject_members :: "js_object \<Rightarrow> string list"
where
  "SerializeJSONProperty JUndefined = None"
| "SerializeJSONProperty JNull = Some ''null''"
| "SerializeJSONProperty (JBool b) = Some (if b then ''true'' else ''false'')"
| "SerializeJSONProperty (JNum n) = Some (Number_toString n)"
| "SerializeJSONProperty (JStr s) = Some (QuoteJSONString s)"
| "SerializeJSONProperty (JArr xs) =
     Some (''['' @ join_with '','' (SerializeJSONArray_elements xs) @ '']'')"
| "SerializeJSONProperty (JObj ps) =
     Some (''{'' @ join_with '','' (SerializeJSONObject_members ps) @ ''}'')"
| "SerializeJSONArray_elements [] = []"
| "SerializeJSONArray_elements (x # xs) =
     (case SerializeJSONProperty x of None \<Rightarrow> ''null'' | Some s \<Rightarrow> s)
       # SerializeJSONArray_elements xs"
| "SerializeJSONObject_members [] = []"
| "SerializeJSONObject_members ((k, v) # ps) =
     (case SerializeJSONProperty v of
        None \<Rightarrow> SerializeJSONObject_members ps
      | Some s \<Rightarrow> (QuoteJSONString k @ '':'' @ s) # SerializeJSONObject_members ps)"

text \<open>\<open>JSON.stringify\<close> of an object: always a string.\<close>

definition JSON_stringify :: "js_object \<Rightarrow> string" where
  "JSON_stringify ps = ''{'' @ join_with '','' (SerializeJSONObject_members ps) @ ''}''"

section \<open>What the plugin takes from its environment\<close>

datatype error =
    Error string
  | SyntaxError
  | Rejected string

text \<open>
  Modelled from the spec: the key-value store (\<open>KeyValueCache\<close> of apollo-server-caching,
  a package outside the plugin's own source). \<open>get\<close> returns the stored string or \<open>undefined\<close>
  (\<open>None\<close>, a miss) and does not change what the store holds; \<open>set\<close> is the only
  operation that writes. A store keeps, besides its entries, the list of the calls it has
  received, so that reads and writes can be counted.
\<close>

datatype store_call = Get string | Set string string

fun is_Set :: "store_call \<Rightarrow> bool" where
  "is_Set (Set k v) = True"
| "is_Set (Get k) = False"

record KeyValueCache =
  entries :: "string \<rightharpoonup> string"
  calls :: "store_call list"

text \<open>The stores that exist, by reference.\<close>

type_synonym stores = "nat \<Rightarrow> KeyValueCache"

definition KeyValueCache_get :: "nat \<Rightarrow> string \<Rightarrow> stores \<Rightarrow> string option \<times> stores" where
  "KeyValueCache_get c key st =
     (entries (st c) key, st(c := (st c)\<lparr>calls := calls (st c) @ [Get key]\<rparr>))"

text \<open>
  Modelled from the spec: \<open>PrefixingKeyValueCache\<close> of apollo-server-caching, the wrapper
  that prepends a fixed namespace token to every key before it reaches the wrapped store.
\<close>

record PrefixingKeyValueCache =
  wrapped :: nat
  prefix :: string

definition PrefixingKeyValueCache_get ::
    "PrefixingKeyValueCache \<Rightarrow> string \<Rightarrow> stores \<Rightarrow> string option \<times> stores" where
  "PrefixingKeyValueCache_get pc key st = KeyValueCache_get (wrapped pc) (prefix pc @ key) st"

text \<open>
  The request context, with the fields the plugin reads. \<open>ctx_cache\<close> is
  \<open>outerRequestContext.cache!\<close>; \<open>operationName\<close> is a string or \<open>null\<close>; the variables
  and the two fields of the response are JavaScript values (\<open>undefined\<close> when absent).
\<close>

record GraphQLRequest =
  variables :: jsval

record GraphQLResponse =
  errors :: jsval
  data :: jsval

record 'd GraphQLRequestContext =
  ctx_cache :: nat
  document :: 'd
  operationName :: "string option"
  request :: GraphQLRequest
  response :: GraphQLResponse

text \<open>
  The plugin's options. A hook is a function of the request context; it returns its value
  or fails (a rejected promise).
\<close>

record 'd Options =
  opt_cache :: "nat option"
  opt_sessionId :: "('d GraphQLRequestContext \<Rightarrow> error + string option) option"
  opt_extraCacheKeyData :: "('d GraphQLRequestContext \<Rightarrow> error + jsval) option"

text \<open>
  The library functions the plugin calls: Node's \<open>createHash('sha256').update(s).digest('hex')\<close>,
  \<open>JSON.parse\<close> (which returns a value or throws a \<open>SyntaxError\<close>) and \<open>print\<close> of
  graphql/language.
\<close>

record 'd platform =
  sha256_hex :: "string \<Rightarrow> string"
  JSON_parse :: "string \<Rightarrow> error + jsval"
  print :: "'d \<Rightarrow> string"

section \<open>The plugin\<close>

datatype SessionMode = NoSession | Private | AuthenticatedPublic

text \<open>The numbers of the enum's members, in the order of their declaration.\<close>

fun SessionMode_value :: "SessionMode \<Rightarrow> int" where
  "SessionMode_value NoSession = 0"
| "SessionMode_value Private = 1"
| "SessionMode_value AuthenticatedPublic = 2"

definition sha :: "'d platform \<Rightarrow> string \<Rightarrow> string" where
  "sha P s = sha256_hex P s"

text \<open>The object \<open>{ ...baseCacheKey, sessionMode }\<close> that \<open>cacheKey\<close> serializes.\<close>

definition cacheKey_object :: "js_object \<Rightarrow> SessionMode \<Rightarrow> js_object" where
  "cacheKey_object baseCacheKey sessionMode =
     set_prop baseCacheKey ''sessionMode'' (JNum (SessionMode_value sessionMode))"

definition cacheKey :: "'d platform \<Rightarrow> js_object \<Rightarrow> SessionMode \<Rightarrow> string" where
  "cacheKey P baseCacheKey sessionMode =
     sha P (JSON_stringify (cacheKey_object baseCacheKey sessionMode))"

text \<open>The variables that one call of \<open>requestDidStart\<close> creates and its listener closes over.\<close>

record listener =
  cache :: PrefixingKeyValueCache
  invokedHooks :: bool
  sessionId :: "string option"
  extraCacheKeyData :: jsval

definition requestDidStart :: "'d Options \<Rightarrow> 'd GraphQLRequestContext \<Rightarrow> listener" where
  "requestDidStart options outerRequestContext =
     \<lparr> cache = \<lparr> wrapped = (case opt_cache options of
                                 Some c \<Rightarrow> c
                               | None \<Rightarrow> ctx_cache outerRequestContext),
                   prefix = ''fqc:'' \<rparr>,
       invokedHooks = False,
       sessionId = None,
       extraCacheKeyData = JNull \<rparr>"

definition cacheGet ::
    "'d platform \<Rightarrow> listener \<Rightarrow> js_object \<Rightarrow> SessionMode \<Rightarrow> stores
      \<Rightarrow> (error + jsval) \<times> stores" where
  "cacheGet P env baseCacheKey sessionMode st =
     (let key = cacheKey P baseCacheKey sessionMode;
          (val, st') = PrefixingKeyValueCache_get (cache env) key st
      in case val of
           None \<Rightarrow> (Inr JNull, st')
         | Some v \<Rightarrow> (JSON_parse P v, st'))"

text \<open>\<open>if (options.hook) { x = await options.hook(requestContext) }\<close>: the new value of \<open>x\<close>.\<close>

definition call_hook :: "('c \<Rightarrow> error + 'a) option \<Rightarrow> 'c \<Rightarrow> 'a \<Rightarrow> error + 'a" where
  "call_hook hook requestContext x =
     (case hook of None \<Rightarrow> Inr x | Some h \<Rightarrow> h requestContext)"

text \<open>The object literal that \<open>execute\<close> binds to \<open>baseCacheKey\<close>.\<close>

definition baseCacheKey_of ::
    "'d platform \<Rightarrow> 'd GraphQLRequestContext \<Rightarrow> jsval \<Rightarrow> js_object" where
  "baseCacheKey_of P requestContext extra =
     [(''document'', JStr (print P (document requestContext))),
      (''operationName'', (case operationName requestContext of
                             None \<Rightarrow> JNull | Some n \<Rightarrow> JStr n)),
      (''variables'', variables (request requestContext)),
      (''extra'', extra)]"

text \<open>
  \<open>execute\<close> returns the cached response, \<open>null\<close> (\<open>JNull\<close>) for a miss, or fails; the
  listener's variables and the stores are returned as it leaves them.
\<close>

definition execute ::
    "'d platform \<Rightarrow> 'd Options \<Rightarrow> 'd GraphQLRequestContext \<Rightarrow> listener \<Rightarrow> stores
      \<Rightarrow> (error + jsval) \<times> listener \<times> stores" where
  "execute P options requestContext env st =
     (case call_hook (opt_sessionId options) requestContext (sessionId env) of
        Inl e \<Rightarrow> (Inl e, env, st)
      | Inr sid \<Rightarrow>
          let env1 = env\<lparr>sessionId := sid\<rparr> in
          (case call_hook (opt_extraCacheKeyData options) requestContext
                  (extraCacheKeyData env1) of
             Inl e \<Rightarrow> (Inl e, env1, st)
           | Inr extra \<Rightarrow>
               let env2 = env1\<lparr>extraCacheKeyData := extra, invokedHooks := True\<rparr>;
                   baseCacheKey = baseCacheKey_of P requestContext (extraCacheKeyData env2)
               in (case sessionId env2 of
                     None \<Rightarrow>
                       (let (r, st1) = cacheGet P env2 baseCacheKey NoSession st
                        in (r, env2, st1))
                   | Some s \<Rightarrow>
                       (let (r1, st1) =
                              cacheGet P env2 (set_prop baseCacheKey ''sessionId'' (JStr s))
                                Private st
                        in case r1 of
                             Inl e \<Rightarrow> (Inl e, env2, st1)
                           | Inr privateResponse \<Rightarrow>
                               if privateResponse \<noteq> JNull
                               then (Inr privateResponse, env2, st1)
                               else (let (r2, st2) =
                                           cacheGet P env2 baseCacheKey AuthenticatedPublic st1
                                     in (r2, env2, st2))))))"

definition willSendResponse ::
    "'d GraphQLRequestContext \<Rightarrow> listener \<Rightarrow> stores \<Rightarrow> (error + unit) \<times> listener \<times> stores" where
  "willSendResponse requestContext env st =
     (let response = response requestContext in
      if truthy (errors response) \<or> \<not> truthy (data response) then (Inr (), env, st)
      else if \<not> invokedHooks env
        then (Inl (Error ''willSendResponse called without error, but execute not called?''),
              env, st)
      else (Inr (), env, st))"

section \<open>Several requests\<close>

text \<open>
  Every call of \<open>requestDidStart\<close> creates its own \<open>invokedHooks\<close>, \<open>sessionId\<close> and
  \<open>extraCacheKeyData\<close>, and the listener it returns is the only code that reaches them. A
  server is the stores together with the variables of the listeners created so far; a
  listener is known by its position in that list. A method of a listener works on the
  variables of that listener and on the shared stores; it runs to its end before another
  one starts. Calling a listener that does not exist has no result (\<open>None\<close>).
\<close>

record server =
  the_stores :: stores
  listeners :: "listener list"

definition srv_requestDidStart ::
    "'d Options \<Rightarrow> 'd GraphQLRequestContext \<Rightarrow> server \<Rightarrow> nat \<times> server" where
  "srv_requestDidStart options outerRequestContext srv =
     (length (listeners srv),
      srv\<lparr>listeners := listeners srv @ [requestDidStart options outerRequestContext]\<rparr>)"

definition srv_execute ::
    "'d platform \<Rightarrow> 'd Options \<Rightarrow> nat \<Rightarrow> 'd GraphQLRequestContext \<Rightarrow> server
      \<Rightarrow> (error + jsval) option \<times> server" where
  "srv_execute P options h requestContext srv =
     (if h < length (listeners srv)
      then (let (r, env', st') =
                  execute P options requestContext (listeners srv ! h) (the_stores srv)
            in (Some r, srv\<lparr>the_stores := st', listeners := (listeners srv)[h := env']\<rparr>))
      else (None, srv))"

definition srv_willSendResponse ::
    "nat \<Rightarrow> 'd GraphQLRequestContext \<Rightarrow> server \<Rightarrow> (error + unit) option \<times> server" where
  "srv_willSendResponse h requestContext srv =
     (if h < length (listeners srv)
      then (let (r, env', st') =
                  willSendResponse requestContext (listeners srv ! h) (the_stores srv)
            in (Some r, srv\<lparr>the_stores := st', listeners := (listeners srv)[h := env']\<rparr>))
      else (None, srv))"

section \<open>Observations on the stores\<close>

text \<open>
  What a read of key \<open>k\<close> in store \<open>c\<close> gives the plugin: \<open>null\<close> when the store has no
  entry (a miss), else the parsed entry, or the failure of parsing it.
\<close>

definition parsed_entry :: "'d platform \<Rightarrow> stores \<Rightarrow> nat \<Rightarrow> string \<Rightarrow> error + jsval" where
  "parsed_entry P st c k =
     (case entries (st c) k of None \<Rightarrow> Inr JNull | Some v \<Rightarrow> JSON_parse P v)"

text \<open>
  The stores after store \<open>c\<close> has received reads of the keys \<open>ks\<close>, in this order, and no
  store has received anything else.
\<close>

definition after_reads :: "stores \<Rightarrow> nat \<Rightarrow> string list \<Rightarrow> stores" where
  "after_reads st c ks = st(c := (st c)\<lparr>calls := calls (st c) @ map Get ks\<rparr>)"

text \<open>The writes a store has received.\<close>

definition writes :: "stores \<Rightarrow> nat \<Rightarrow> store_call list" where
  "writes st c = filter is_Set (calls (st c))"

text \<open>
  Request \<open>h\<close> looks up in server \<open>srv1\<close> as it does in server \<open>srv\<close>: \<open>execute\<close> has the
  same result, leaves the same values in the listener's variables and reads the same keys.
\<close>

definition same_lookup ::
    "'d platform \<Rightarrow> 'd Options \<Rightarrow> nat \<Rightarrow> 'd GraphQLRequestContext \<Rightarrow> server \<Rightarrow> server \<Rightarrow> bool" where
  "same_lookup P options h rc srv srv1 =
     (\<exists>r env' ks.
        srv_execute P options h rc srv =
          (Some r, srv\<lparr>the_stores := after_reads (the_stores srv)
                           (wrapped (cache (listeners srv ! h))) ks,
                        listeners := (listeners srv)[h := env']\<rparr>)
      \<and> srv_execute P options h rc srv1 =
          (Some r, srv1\<lparr>the_stores := after_reads (the_stores srv1)
                            (wrapped (cache (listeners srv ! h))) ks,
                         listeners := (listeners srv1)[h := env']\<rparr>))"

text \<open>
  Request \<open>h\<close> has the same write phase in \<open>srv1\<close> as in \<open>srv\<close>: \<open>willSendResponse\<close> has
  the same result and changes neither server.
\<close>

definition same_write_phase ::
    "nat \<Rightarrow> 'd GraphQLRequestContext \<Rightarrow> server \<Rightarrow> server \<Rightarrow> bool" where
  "same_write_phase h rc srv srv1 =
     (\<exists>r. srv_willSendResponse h rc srv = (Some r, srv)
         \<and> srv_willSendResponse h rc srv1 = (Some r, srv1))"

section \<open>Example data\<close>

text \<open>
  A platform for examples: documents are their own printed text, the digest of a string is
  the string itself (so that distinct strings have distinct digests), and parsing gives
  \<open>null\<close> for the text \<open>null\<close> and a string for any other text.
\<close>

definition example_platform :: "string platform" where
  "example_platform =
     \<lparr> sha256_hex = (\<lambda>s. s),
       JSON_parse = (\<lambda>s. if s = ''null'' then Inr JNull else Inr (JStr s)),
       print = (\<lambda>d. d) \<rparr>"

definition anonymous_options :: "string Options" where
  "anonymous_options =
     \<lparr> opt_cache = None, opt_sessionId = None, opt_extraCacheKeyData = None \<rparr>"

definition session_options :: "string Options" where
  "session_options =
     \<lparr> opt_cache = None,
       opt_sessionId = Some (\<lambda>rc. Inr (Some ''u1'')),
       opt_extraCacheKeyData = None \<rparr>"

definition example_context :: "jsval \<Rightarrow> jsval \<Rightarrow> string GraphQLRequestContext" where
  "example_context es d =
     \<lparr> ctx_cache = 0,
       document = ''{ a }'',
       operationName = None,
       request = \<lparr> variables = JObj [] \<rparr>,
       response = \<lparr> errors = es, data = d \<rparr> \<rparr>"

definition example_stores :: "(string \<rightharpoonup> string) \<Rightarrow> stores" where
  "example_stores m = (\<lambda>c. \<lparr> entries = m, calls = [] \<rparr>)"

text \<open>A response with data and no errors; a response with one error and no data.\<close>

definition eligible_context :: "string GraphQLRequestContext" where
  "eligible_context = example_context JUndefined (JObj [(''a'', JNum 1)])"

definition failed_context :: "string GraphQLRequestContext" where
  "failed_context = example_context (JArr [JObj [(''message'', JStr ''boom'')]]) JUndefined"

definition empty_stores :: stores where
  "empty_stores = example_stores Map.empty"

text \<open>The listener of an anonymous request and the listener of a request with a session hook.\<close>

definition fresh_listener :: listener where
  "fresh_listener = requestDidStart anonymous_options eligible_context"

definition session_listener :: listener where
  "session_listener = requestDidStart session_options eligible_context"

text \<open>
  The listener's variables and the stores as the lookup of the anonymous example request
  leaves them.
\<close>

definition listener_after_lookup :: listener where
  "listener_after_lookup =
     fst (snd (execute example_platform anonymous_options eligible_context fresh_listener
       empty_stores))"

definition stores_after_lookup :: stores where
  "stores_after_lookup =
     snd (snd (execute example_platform anonymous_options eligible_context fresh_listener
       empty_stores))"

text \<open>Stores in which session \<open>u1\<close> has a private entry for the example request.\<close>

definition private_key_u1 :: string where
  "private_key_u1 =
     ''fqc:'' @ cacheKey example_platform
       (set_prop (baseCacheKey_of example_platform eligible_context JNull)
          ''sessionId'' (JStr ''u1''))
       Private"

definition private_stores :: stores where
  "private_stores = example_stores [private_key_u1 \<mapsto> ''mine'']"

text \<open>Two sets of variables that are equal as maps and differ in the order of their keys.\<close>

definition context_with_variables :: "js_object \<Rightarrow> string GraphQLRequestContext" where
  "context_with_variables vs =
     (example_context JUndefined JUndefined)\<lparr>request := \<lparr> variables = JObj vs \<rparr>\<rparr>"

definition vars_ab :: js_object where
  "vars_ab = [(''a'', JStr ''x''), (''b'', JStr ''y'')]"

definition vars_ba :: js_object where
  "vars_ba = [(''b'', JStr ''y''), (''a'', JStr ''x'')]"

text \<open>A server with two requests in flight.\<close>

definition example_server :: server where
  "example_server =
     \<lparr> the_stores = empty_stores, listeners = [session_listener, fresh_listener] \<rparr>"

section \<open>Reading from the stores\<close>

lemma cacheGet_reads:
  "cacheGet P env b m st =
     (parsed_entry P st (wrapped (cache env)) (prefix (cache env) @ cacheKey P b m),
      after_reads st (wrapped (cache env)) [prefix (cache env) @ cacheKey P b m])"
  by (simp add: cacheGet_def PrefixingKeyValueCache_get_def KeyValueCache_get_def
        parsed_entry_def after_reads_def split: option.split)

lemma parsed_entry_after_reads [simp]:
  "parsed_entry P (after_reads st c ks) c' k = parsed_entry P st c' k"
  by (simp add: parsed_entry_def after_reads_def)

lemma after_reads_after_reads [simp]:
  "after_reads (after_reads st c ks) c ks' = after_reads st c (ks @ ks')"
  by (simp add: after_reads_def)

lemma after_reads_Nil [simp]: "after_reads st c [] = st"
  by (simp add: after_reads_def)

lemma entries_after_reads [simp]: "entries (after_reads st c ks c') = entries (st c')"
  by (simp add: after_reads_def)

lemma calls_after_reads:
  "calls (after_reads st c ks c') = (if c' = c then calls (st c) @ map Get ks else calls (st c'))"
  by (simp add: after_reads_def)

lemma writes_after_reads [simp]: "writes (after_reads st c ks) c' = writes st c'"
  by (simp add: writes_def calls_after_reads comp_def)

lemma example_parse [simp]: "JSON_parse example_platform ''mine'' = Inr (JStr ''mine'')"
  by (simp add: example_platform_def)

lemma wrapped_example_listeners [simp]:
  "cache fresh_listener = \<lparr> wrapped = 0, prefix = ''fqc:'' \<rparr>"
  "cache session_listener = \<lparr> wrapped = 0, prefix = ''fqc:'' \<rparr>"
  by (simp_all add: fresh_listener_def session_listener_def requestDidStart_def
        anonymous_options_def session_options_def eligible_context_def example_context_def)

lemma example_listeners_variables [simp]:
  "invokedHooks fresh_listener = False" "sessionId fresh_listener = None"
  "extraCacheKeyData fresh_listener = JNull"
  "invokedHooks session_listener = False" "sessionId session_listener = None"
  "extraCacheKeyData session_listener = JNull"
  by (simp_all add: fresh_listener_def session_listener_def requestDidStart_def)

lemma example_responses [simp]:
  "errors (response eligible_context) = JUndefined"
  "data (response eligible_context) = JObj [(''a'', JNum 1)]"
  "errors (response failed_context) = JArr [JObj [(''message'', JStr ''boom'')]]"
  "data (response failed_context) = JUndefined"
  by (simp_all add: eligible_context_def failed_context_def example_context_def)

section \<open>The lookup before execution\<close>

text \<open>
  Claim C1. When both hooks return (the session hook with \<open>sid\<close>), \<open>execute\<close> follows the
  session state machine. With no session (\<open>sid\<close> is \<open>null\<close>) it reads the store exactly
  once, at the key built from the base cache key with mode \<open>NoSession\<close>, and returns the
  parsed entry or a miss. With a session \<open>s\<close> it first reads at the key built from the base
  cache key augmented with \<open>s\<close> under mode \<open>Private\<close>; on a hit (a parsed entry other than
  \<open>null\<close>) it returns that entry and the stores have received this one read only; on a miss
  it reads once more, at the key built from the unaugmented base cache key under mode
  \<open>AuthenticatedPublic\<close>, and returns what that read gives. An entry whose text parses to
  \<open>null\<close> counts as a miss, as \<open>cacheGet\<close> returns \<open>null\<close> for both; an entry that does
  not parse makes \<open>execute\<close> fail after the one read.
\<close>

theorem execute_lookup_state_machine:
  assumes "call_hook (opt_sessionId options) rc (sessionId env) = Inr sid"
    and "call_hook (opt_extraCacheKeyData options) rc (extraCacheKeyData env) = Inr extra"
  shows "let base = baseCacheKey_of P rc extra;
             c = wrapped (cache env);
             env' = env\<lparr>sessionId := sid, extraCacheKeyData := extra, invokedHooks := True\<rparr>;
             k_none = prefix (cache env) @ cacheKey P base NoSession;
             k_public = prefix (cache env) @ cacheKey P base AuthenticatedPublic
         in (sid = None \<longrightarrow>
               execute P options rc env st =
                 (parsed_entry P st c k_none, env', after_reads st c [k_none])) \<and>
            (\<forall>s. sid = Some s \<longrightarrow>
               (let k_private = prefix (cache env)
                      @ cacheKey P (set_prop base ''sessionId'' (JStr s)) Private
                in (\<forall>r. parsed_entry P st c k_private = Inr r \<and> r \<noteq> JNull \<longrightarrow>
                      execute P options rc env st = (Inr r, env', after_reads st c [k_private])) \<and>
                   (parsed_entry P st c k_private = Inr JNull \<longrightarrow>
                      execute P options rc env st =
                        (parsed_entry P st c k_public, env',
                         after_reads st c [k_private, k_public])) \<and>
                   (\<forall>e. parsed_entry P st c k_private = Inl e \<longrightarrow>
                      execute P options rc env st = (Inl e, env', after_reads st c [k_private]))))"
  using assms
  by (auto simp add: execute_def Let_def cacheGet_reads)

theorem execute_lookup_state_machine_witness:
  "call_hook (opt_sessionId session_options) eligible_context (sessionId session_listener)
     = Inr (Some ''u1'')
   \<and> call_hook (opt_extraCacheKeyData session_options) eligible_context
       (extraCacheKeyData session_listener) = Inr JNull
   \<and> parsed_entry example_platform private_stores 0 private_key_u1 = Inr (JStr ''mine'')
   \<and> execute example_platform session_options eligible_context session_listener private_stores =
       (Inr (JStr ''mine''),
        session_listener
          \<lparr>sessionId := Some ''u1'', extraCacheKeyData := JNull, invokedHooks := True\<rparr>,
        after_reads private_stores 0 [private_key_u1])"
proof -
  have h1: "call_hook (opt_sessionId session_options) eligible_context
              (sessionId session_listener) = Inr (Some ''u1'')"
    by (simp add: call_hook_def session_options_def)
  have h2: "call_hook (opt_extraCacheKeyData session_options) eligible_context
              (extraCacheKeyData session_listener) = Inr JNull"
    by (simp add: call_hook_def session_options_def)
  have h3: "parsed_entry example_platform private_stores 0 private_key_u1 = Inr (JStr ''mine'')"
    by (simp add: parsed_entry_def private_stores_def example_stores_def)
  have k: "private_key_u1 =
             ''fqc:'' @ cacheKey example_platform
               (set_prop (baseCacheKey_of example_platform eligible_context JNull)
                  ''sessionId'' (JStr ''u1''))
               Private"
    by (simp add: private_key_u1_def)
  from h3 have h3': "parsed_entry example_platform private_stores 0
              (''fqc:'' @ cacheKey example_platform
                 (set_prop (baseCacheKey_of example_platform eligible_context JNull)
                    ''sessionId'' (JStr ''u1''))
                 Private) = Inr (JStr ''mine'')"
    by (simp add: k)
  from execute_lookup_state_machine [OF h1 h2, of example_platform private_stores] h3'
  have "execute example_platform session_options eligible_context session_listener
          private_stores =
          (Inr (JStr ''mine''),
           session_listener
             \<lparr>sessionId := Some ''u1'', extraCacheKeyData := JNull, invokedHooks := True\<rparr>,
           after_reads private_stores 0
             [''fqc:'' @ cacheKey example_platform
                (set_prop (baseCacheKey_of example_platform eligible_context JNull)
                   ''sessionId'' (JStr ''u1''))
                Private])"
    by (simp add: Let_def)
  with h1 h2 h3 show ?thesis by (simp add: k)
qed

section \<open>The keys\<close>

lemma cacheKey_object_base:
  "cacheKey_object (baseCacheKey_of P rc extra) m =
     baseCacheKey_of P rc extra @ [(''sessionMode'', JNum (SessionMode_value m))]"
  by (simp add: cacheKey_object_def baseCacheKey_of_def)

lemma cacheKey_object_session:
  "cacheKey_object (set_prop (baseCacheKey_of P rc extra) ''sessionId'' (JStr s)) m =
     baseCacheKey_of P rc extra
       @ [(''sessionId'', JStr s), (''sessionMode'', JNum (SessionMode_value m))]"
  by (simp add: cacheKey_object_def baseCacheKey_of_def)

lemma cache_requestDidStart:
  "cache (requestDidStart options outer) =
     \<lparr> wrapped = (case opt_cache options of Some c \<Rightarrow> c | None \<Rightarrow> ctx_cache outer),
       prefix = ''fqc:'' \<rparr>"
  by (simp add: requestDidStart_def)

lemma digits_0 [simp]: "digits 0 = ''0''"
  by (simp add: digits.simps [of 0] hex_digit_def)

lemma anonymous_serialization:
  "JSON_stringify
     [(''document'', JStr ''{ a }''), (''operationName'', JNull), (''variables'', JObj []),
      (''extra'', JNull), (''sessionMode'', JNum 0)]
   = ''{\"document\":\"{ a }\",\"operationName\":null,\"variables\":{},\"extra\":null,\"sessionMode\":0}''"
  by (simp add: JSON_stringify_def QuoteJSONString_def quote_char_def Number_toString_def)

text \<open>
  A property whose value is \<open>undefined\<close> is left out of the text: for a request whose
  \<open>variables\<close> are \<open>undefined\<close> rather than an object, the serialized key has no field
  \<open>variables\<close>.
\<close>

lemma undefined_variables_serialization:
  "JSON_stringify
     [(''document'', JStr ''{ a }''), (''operationName'', JNull), (''variables'', JUndefined),
      (''extra'', JNull), (''sessionMode'', JNum 0)]
   = ''{\"document\":\"{ a }\",\"operationName\":null,\"extra\":null,\"sessionMode\":0}''"
  by (simp add: JSON_stringify_def QuoteJSONString_def quote_char_def Number_toString_def)

lemma members_append:
  "SerializeJSONObject_members (ps @ qs) =
     SerializeJSONObject_members ps @ SerializeJSONObject_members qs"
  by (induction ps) (auto split: option.split)

lemma join_with_snoc:
  "join_with sep (xs @ [x]) = (if xs = [] then x else join_with sep xs @ sep @ x)"
  by (induction sep xs rule: join_with.induct) auto

lemma stringify_last_number:
  "\<exists>pre. JSON_stringify (ps @ [(k, JNum n)]) = pre @ Number_toString n @ ''}''"
  by (simp add: JSON_stringify_def members_append join_with_snoc)

lemma Number_toString_modes:
  "Number_toString 0 = ''0''"
  "Number_toString 1 = ''1''"
  "Number_toString 2 = ''2''"
  by (simp_all add: Number_toString_def digits.simps [of 0] digits.simps [of "Suc 0"]
        digits.simps [of 2] hex_digit_def)

lemma stringify_mode_differs:
  assumes "m \<noteq> m'"
  shows "JSON_stringify (ps @ [(k, JNum (SessionMode_value m))])
         \<noteq> JSON_stringify (qs @ [(k', JNum (SessionMode_value m'))])"
proof -
  obtain a where a: "JSON_stringify (ps @ [(k, JNum (SessionMode_value m))])
      = a @ Number_toString (SessionMode_value m) @ ''}''"
    using stringify_last_number by blast
  obtain b where b: "JSON_stringify (qs @ [(k', JNum (SessionMode_value m'))])
      = b @ Number_toString (SessionMode_value m') @ ''}''"
    using stringify_last_number by blast
  show ?thesis
    unfolding a b using assms
    by (cases m; cases m') (simp_all add: Number_toString_modes)
qed

lemma execute_hooks_fail:
  "call_hook (opt_sessionId options) rc (sessionId env) = Inl e
     \<Longrightarrow> snd (snd (execute P options rc env st)) = st"
  "call_hook (opt_sessionId options) rc (sessionId env) = Inr sid
     \<Longrightarrow> call_hook (opt_extraCacheKeyData options) rc (extraCacheKeyData env) = Inl e
     \<Longrightarrow> snd (snd (execute P options rc env st)) = st"
  by (simp_all add: execute_def)

lemma execute_reads:
  assumes "call_hook (opt_sessionId options) rc (sessionId env) = Inr sid"
    and "call_hook (opt_extraCacheKeyData options) rc (extraCacheKeyData env) = Inr extra"
  shows "snd (snd (execute P options rc env st)) =
     after_reads st (wrapped (cache env))
       (case sid of
          None \<Rightarrow> [prefix (cache env) @ cacheKey P (baseCacheKey_of P rc extra) NoSession]
        | Some s \<Rightarrow>
            (prefix (cache env)
              @ cacheKey P (set_prop (baseCacheKey_of P rc extra) ''sessionId'' (JStr s)) Private)
            # (if parsed_entry P st (wrapped (cache env))
                    (prefix (cache env)
                      @ cacheKey P (set_prop (baseCacheKey_of P rc extra) ''sessionId'' (JStr s))
                          Private) = Inr JNull
               then [prefix (cache env)
                      @ cacheKey P (baseCacheKey_of P rc extra) AuthenticatedPublic]
               else []))"
  using assms
  by (auto simp add: execute_def Let_def cacheGet_reads split: option.split sum.split)

lemma execute_reads_shapes:
  "\<exists>ks. snd (snd (execute P options rc env st)) = after_reads st (wrapped (cache env)) ks
     \<and> (\<forall>k \<in> set ks. \<exists>extra.
           k = prefix (cache env) @ sha256_hex P (JSON_stringify
                 (cacheKey_object (baseCacheKey_of P rc extra) NoSession))
         \<or> k = prefix (cache env) @ sha256_hex P (JSON_stringify
                 (cacheKey_object (baseCacheKey_of P rc extra) AuthenticatedPublic))
         \<or> (\<exists>s. k = prefix (cache env) @ sha256_hex P (JSON_stringify
                 (cacheKey_object
                    (set_prop (baseCacheKey_of P rc extra) ''sessionId'' (JStr s)) Private))))"
  (is "\<exists>ks. ?stores ks \<and> ?shapes ks")
proof (cases "call_hook (opt_sessionId options) rc (sessionId env)")
  case (Inl e)
  then have "?stores []" by (simp add: execute_hooks_fail)
  then show ?thesis by (intro exI [of _ "[]"]) simp
next
  case sid: (Inr sid)
  show ?thesis
  proof (cases "call_hook (opt_extraCacheKeyData options) rc (extraCacheKeyData env)")
    case (Inl e)
    with sid have "?stores []" by (simp add: execute_hooks_fail)
    then show ?thesis by (intro exI [of _ "[]"]) simp
  next
    case (Inr extra)
    note r = execute_reads [OF sid Inr, of P st]
    show ?thesis
      unfolding r
      by (rule exI, rule conjI, rule refl)
        (auto simp add: cacheKey_def sha_def split: option.split)
  qed
qed

text \<open>
  Claim C2. In the object that is serialized and hashed for a key of mode \<open>Private\<close>, the
  property \<open>sessionId\<close> is present and holds the session identifier, a string; the objects
  for the keys of mode \<open>AuthenticatedPublic\<close> and \<open>NoSession\<close> have no property
  \<open>sessionId\<close>. For every base cache key and every session identifier, the text
  serialized for the \<open>Private\<close> key differs from the texts serialized for the other two
  keys; hence the keys differ whenever the digest does not collide, and always when the
  digest is injective. Every key that \<open>execute\<close> reads, for every request, is the digest of
  an object of one of these three shapes.
\<close>

theorem private_key_embeds_session:
  "(let base = baseCacheKey_of P rc extra;
        private_object = cacheKey_object (set_prop base ''sessionId'' (JStr s)) Private;
        public_object = cacheKey_object base AuthenticatedPublic;
        anonymous_object = cacheKey_object base NoSession
    in get_prop private_object ''sessionId'' = JStr s
       \<and> \<not> has_prop public_object ''sessionId''
       \<and> \<not> has_prop anonymous_object ''sessionId''
       \<and> JSON_stringify private_object \<noteq> JSON_stringify public_object
       \<and> JSON_stringify private_object \<noteq> JSON_stringify anonymous_object
       \<and> (inj (sha256_hex P) \<longrightarrow>
             cacheKey P (set_prop base ''sessionId'' (JStr s)) Private
               \<noteq> cacheKey P base AuthenticatedPublic
           \<and> cacheKey P (set_prop base ''sessionId'' (JStr s)) Private
               \<noteq> cacheKey P base NoSession))
   \<and> (\<exists>ks. snd (snd (execute P options rc env st)) = after_reads st (wrapped (cache env)) ks
        \<and> (\<forall>k \<in> set ks. \<exists>extra.
              k = prefix (cache env) @ sha256_hex P (JSON_stringify
                    (cacheKey_object (baseCacheKey_of P rc extra) NoSession))
            \<or> k = prefix (cache env) @ sha256_hex P (JSON_stringify
                    (cacheKey_object (baseCacheKey_of P rc extra) AuthenticatedPublic))
            \<or> (\<exists>s. k = prefix (cache env) @ sha256_hex P (JSON_stringify
                    (cacheKey_object
                       (set_prop (baseCacheKey_of P rc extra) ''sessionId'' (JStr s))
                       Private)))))"
  (is "?objects \<and> ?reads")
proof -
  let ?base = "baseCacheKey_of P rc extra"
  let ?priv = "cacheKey_object (set_prop ?base ''sessionId'' (JStr s)) Private"
  have p: "?priv = (?base @ [(''sessionId'', JStr s)])
                     @ [(''sessionMode'', JNum (SessionMode_value Private))]"
    by (simp add: cacheKey_object_def baseCacheKey_of_def)
  have q: "cacheKey_object ?base m = ?base @ [(''sessionMode'', JNum (SessionMode_value m))]"
    for m
    by (simp add: cacheKey_object_def baseCacheKey_of_def)
  have 1: "get_prop ?priv ''sessionId'' = JStr s"
    by (simp add: cacheKey_object_def baseCacheKey_of_def)
  have 2: "\<not> has_prop (cacheKey_object ?base m) ''sessionId''" for m
    by (simp add: cacheKey_object_def baseCacheKey_of_def has_prop_def)
  have 3: "JSON_stringify ?priv \<noteq> JSON_stringify (cacheKey_object ?base AuthenticatedPublic)"
    unfolding p q by (rule stringify_mode_differs) simp
  have 4: "JSON_stringify ?priv \<noteq> JSON_stringify (cacheKey_object ?base NoSession)"
    unfolding p q by (rule stringify_mode_differs) simp
  have 5: "cacheKey P (set_prop ?base ''sessionId'' (JStr s)) Private \<noteq> cacheKey P ?base m"
    if "inj (sha256_hex P)"
      and "JSON_stringify ?priv \<noteq> JSON_stringify (cacheKey_object ?base m)" for m
    using that by (auto simp add: cacheKey_def sha_def dest: injD)
  from 1 2 3 4 5 have ?objects
    by (simp only: Let_def) blast
  moreover have ?reads
    by (rule execute_reads_shapes)
  ultimately show ?thesis ..
qed

theorem private_key_embeds_session_witness:
  "inj (sha256_hex example_platform)
   \<and> cacheKey example_platform
       (set_prop (baseCacheKey_of example_platform eligible_context JNull)
          ''sessionId'' (JStr ''u1'')) Private
     \<noteq> cacheKey example_platform
         (baseCacheKey_of example_platform eligible_context JNull) AuthenticatedPublic
   \<and> cacheKey example_platform
       (set_prop (baseCacheKey_of example_platform eligible_context JNull)
          ''sessionId'' (JStr ''u1'')) Private
     \<noteq> cacheKey example_platform
         (baseCacheKey_of example_platform eligible_context JNull) NoSession
   \<and> snd (snd (execute example_platform session_options eligible_context session_listener
        private_stores))
     = after_reads private_stores 0 [private_key_u1]
   \<and> private_key_u1
     = ''fqc:'' @ sha256_hex example_platform (JSON_stringify
         (cacheKey_object
            (set_prop (baseCacheKey_of example_platform eligible_context JNull)
               ''sessionId'' (JStr ''u1''))
            Private))"
proof -
  have i: "inj (sha256_hex example_platform)"
    by (simp add: example_platform_def inj_def)
  have h1: "call_hook (opt_sessionId session_options) eligible_context
              (sessionId session_listener) = Inr (Some ''u1'')"
    by (simp add: call_hook_def session_options_def)
  have h2: "call_hook (opt_extraCacheKeyData session_options) eligible_context
              (extraCacheKeyData session_listener) = Inr JNull"
    by (simp add: call_hook_def session_options_def)
  have k: "private_key_u1
     = ''fqc:'' @ sha256_hex example_platform (JSON_stringify
         (cacheKey_object
            (set_prop (baseCacheKey_of example_platform eligible_context JNull)
               ''sessionId'' (JStr ''u1''))
            Private))"
    by (simp add: private_key_u1_def cacheKey_def sha_def)
  have h3: "parsed_entry example_platform private_stores 0 private_key_u1 = Inr (JStr ''mine'')"
    by (simp add: parsed_entry_def private_stores_def example_stores_def)
  have r: "snd (snd (execute example_platform session_options eligible_context session_listener
             private_stores))
           = after_reads private_stores 0 [private_key_u1]"
    using h3 unfolding execute_reads [OF h1 h2] k
    by (simp add: cacheKey_def sha_def)
  from private_key_embeds_session
         [THEN conjunct1, of example_platform eligible_context JNull "''u1''"] i
  have "cacheKey example_platform
       (set_prop (baseCacheKey_of example_platform eligible_context JNull)
          ''sessionId'' (JStr ''u1'')) Private
     \<noteq> cacheKey example_platform
         (baseCacheKey_of example_platform eligible_context JNull) AuthenticatedPublic
   \<and> cacheKey example_platform
       (set_prop (baseCacheKey_of example_platform eligible_context JNull)
          ''sessionId'' (JStr ''u1'')) Private
     \<noteq> cacheKey example_platform
         (baseCacheKey_of example_platform eligible_context JNull) NoSession"
    by (simp add: Let_def)
  with i r k show ?thesis by blast
qed

text \<open>
  Claim C6. For every document, operation name, variables, extra data, optional session
  identifier and session mode, the key under which \<open>cacheGet\<close> reads the backing store is
  the namespace prefix \<open>fqc:\<close> followed by the hexadecimal SHA-256 digest of the
  \<open>JSON.stringify\<close> text of the object with the fields \<open>document\<close>, \<open>operationName\<close>,
  \<open>variables\<close>, \<open>extra\<close>, \<open>sessionId\<close> (when the key carries one) and \<open>sessionMode\<close>, in
  this order. The key is a function of these inputs alone: the listener's variables, the
  options, the context that started the request and the contents of the stores do not
  enter it, so equal inputs give the identical key string in every call.
\<close>

theorem store_key_format:
  "let env = (requestDidStart options outer)
               \<lparr>invokedHooks := ih, sessionId := sid, extraCacheKeyData := ex\<rparr>;
       base = baseCacheKey_of P rc extra;
       fields = [(''document'', JStr (print P (document rc))),
                 (''operationName'',
                    (case operationName rc of None \<Rightarrow> JNull | Some n \<Rightarrow> JStr n)),
                 (''variables'', variables (request rc)),
                 (''extra'', extra)];
       tag = (''sessionMode'', JNum (SessionMode_value mode))
   in snd (cacheGet P env base mode st) =
        after_reads st (wrapped (cache env))
          [''fqc:'' @ sha256_hex P (JSON_stringify (fields @ [tag]))]
      \<and> snd (cacheGet P env (set_prop base ''sessionId'' (JStr s)) mode st) =
        after_reads st (wrapped (cache env))
          [''fqc:'' @ sha256_hex P (JSON_stringify (fields @ [(''sessionId'', JStr s), tag]))]"
  by (simp add: Let_def cacheGet_reads cacheKey_def sha_def cacheKey_object_base
        cacheKey_object_session cache_requestDidStart)
    (simp add: baseCacheKey_of_def)

text \<open>
  Claim C8. For a request with neither hook configured, with printed document \<open>{ a }\<close>,
  operation name \<open>null\<close> and the empty object as variables, the one read of \<open>execute\<close> is at
  the key \<open>fqc:\<close> followed by the digest of exactly the text
  \<open>{"document":"{ a }","operationName":null,"variables":{},"extra":null,"sessionMode":0}\<close>.
\<close>

theorem anonymous_read_key:
  assumes "opt_sessionId options = None" and "opt_extraCacheKeyData options = None"
    and "print P (document rc) = ''{ a }''"
    and "operationName rc = None"
    and "variables (request rc) = JObj []"
  shows "let env = requestDidStart options outer;
             c = wrapped (cache env)
         in snd (snd (execute P options rc env st)) =
              after_reads st c
                [''fqc:'' @ sha256_hex P
                   ''{\"document\":\"{ a }\",\"operationName\":null,\"variables\":{},\"extra\":null,\"sessionMode\":0}'']"
proof -
  have "cacheKey P (baseCacheKey_of P rc JNull) NoSession =
          sha256_hex P
            ''{\"document\":\"{ a }\",\"operationName\":null,\"variables\":{},\"extra\":null,\"sessionMode\":0}''"
    using assms(3-5)
    by (simp add: cacheKey_def sha_def cacheKey_object_base)
      (simp add: baseCacheKey_of_def anonymous_serialization)
  then show ?thesis
    using assms(1,2)
    by (simp add: Let_def execute_def call_hook_def cacheGet_reads requestDidStart_def)
qed

theorem anonymous_read_key_witness:
  "opt_sessionId anonymous_options = None \<and> opt_extraCacheKeyData anonymous_options = None
   \<and> print example_platform (document eligible_context) = ''{ a }''
   \<and> operationName eligible_context = None
   \<and> variables (request eligible_context) = JObj []
   \<and> snd (snd (execute example_platform anonymous_options eligible_context fresh_listener
        empty_stores)) =
       after_reads empty_stores 0
         [''fqc:'' @ sha256_hex example_platform
            ''{\"document\":\"{ a }\",\"operationName\":null,\"variables\":{},\"extra\":null,\"sessionMode\":0}'']"
proof -
  have h1: "opt_sessionId anonymous_options = None"
    and h2: "opt_extraCacheKeyData anonymous_options = None"
    by (simp_all add: anonymous_options_def)
  have h3: "print example_platform (document eligible_context) = ''{ a }''"
    by (simp add: example_platform_def eligible_context_def example_context_def)
  have h4: "operationName eligible_context = None"
    and h5: "variables (request eligible_context) = JObj []"
    by (simp_all add: eligible_context_def example_context_def)
  from anonymous_read_key [OF h1 h2 h3 h4 h5, of eligible_context empty_stores]
  show ?thesis
    using h1 h2 h3 h4 h5 by (simp add: Let_def fresh_listener_def [symmetric])
qed

subsection \<open>The order of the keys\<close>

lemma stringify_ab:
  "JSON_stringify (cacheKey_object
      (baseCacheKey_of example_platform (context_with_variables vars_ab) JNull) NoSession)
   = ''{\"document\":\"{ a }\",\"operationName\":null,\"variables\":{\"a\":\"x\",\"b\":\"y\"},\"extra\":null,\"sessionMode\":0}''"
  by (simp add: cacheKey_object_base)
    (simp add: baseCacheKey_of_def context_with_variables_def example_context_def vars_ab_def
      example_platform_def JSON_stringify_def QuoteJSONString_def quote_char_def
      Number_toString_def)

lemma stringify_ba:
  "JSON_stringify (cacheKey_object
      (baseCacheKey_of example_platform (context_with_variables vars_ba) JNull) NoSession)
   = ''{\"document\":\"{ a }\",\"operationName\":null,\"variables\":{\"b\":\"y\",\"a\":\"x\"},\"extra\":null,\"sessionMode\":0}''"
  by (simp add: cacheKey_object_base)
    (simp add: baseCacheKey_of_def context_with_variables_def example_context_def vars_ba_def
      example_platform_def JSON_stringify_def QuoteJSONString_def quote_char_def
      Number_toString_def)

text \<open>
  Claim C7, as stated, fails: the variables \<open>{a: "x", b: "y"}\<close> and \<open>{b: "y", a: "x"}\<close> are
  equal as maps, yet the two base cache keys that differ in nothing else are serialized to
  different texts, and their cache keys differ for a digest without collisions.
\<close>

theorem key_order_counterexample:
  "map_of vars_ab = map_of vars_ba
   \<and> JSON_stringify (cacheKey_object
        (baseCacheKey_of example_platform (context_with_variables vars_ab) JNull) NoSession)
     \<noteq> JSON_stringify (cacheKey_object
        (baseCacheKey_of example_platform (context_with_variables vars_ba) JNull) NoSession)
   \<and> cacheKey example_platform
        (baseCacheKey_of example_platform (context_with_variables vars_ab) JNull) NoSession
     \<noteq> cacheKey example_platform
        (baseCacheKey_of example_platform (context_with_variables vars_ba) JNull) NoSession"
proof -
  have "map_of vars_ab = map_of vars_ba"
    by (rule ext) (simp add: vars_ab_def vars_ba_def)
  moreover have "sha256_hex example_platform = (\<lambda>s. s)"
    by (simp add: example_platform_def)
  ultimately show ?thesis
    by (simp add: cacheKey_def sha_def stringify_ab stringify_ba)
qed

lemma same_order_same_object:
  "distinct (map fst xs) \<Longrightarrow> map fst xs = map fst ys \<Longrightarrow> map_of xs = map_of ys \<Longrightarrow> xs = ys"
proof (induction xs arbitrary: ys)
  case Nil
  then show ?case by simp
next
  case (Cons x xs)
  then obtain y ys' where ys: "ys = y # ys'" by (cases ys) auto
  from Cons.prems ys have k: "fst x = fst y" and ks: "map fst xs = map fst ys'" by auto
  have eq: "map_of (x # xs) a = map_of (y # ys') a" for a
    using Cons.prems(3) unfolding ys by (rule fun_cong)
  from eq [of "fst x"] k have v: "snd x = snd y" by (cases x; cases y) auto
  have "map_of xs = map_of ys'"
  proof
    fix a
    show "map_of xs a = map_of ys' a"
    proof (cases "a = fst x")
      case True
      with Cons.prems(1) have "a \<notin> set (map fst xs)" by simp
      moreover from this ks have "a \<notin> set (map fst ys')" by simp
      ultimately show ?thesis
        by (simp add: map_of_eq_None_iff [symmetric] del: map_of_eq_None_iff)
    next
      case False
      with eq [of a] k show ?thesis by (cases x; cases y) auto
    qed
  qed
  with Cons.IH [of ys'] Cons.prems(1) ks have "xs = ys'" by simp
  with k v ys show ?case by (cases x; cases y) auto
qed

text \<open>
  Claim C7, amended. For every pair of base cache keys with the same printed document and
  operation name whose variables are equal as maps and list their keys in the same order,
  and likewise their extra data, the key encoding produces the same serialized form and the
  same digest. (\<open>JSON.stringify\<close> writes the keys of an object in the order in which the
  object lists them; the plugin does not sort them.)
\<close>

theorem same_key_order_same_key:
  assumes "print P (document rc1) = print P (document rc2)"
    and "operationName rc1 = operationName rc2"
    and "variables (request rc1) = JObj vs1" and "variables (request rc2) = JObj vs2"
    and "distinct (map fst vs1)" and "map fst vs1 = map fst vs2" and "map_of vs1 = map_of vs2"
    and "distinct (map fst ex1)" and "map fst ex1 = map fst ex2" and "map_of ex1 = map_of ex2"
  shows "JSON_stringify (cacheKey_object (baseCacheKey_of P rc1 (JObj ex1)) m)
           = JSON_stringify (cacheKey_object (baseCacheKey_of P rc2 (JObj ex2)) m)
         \<and> cacheKey P (baseCacheKey_of P rc1 (JObj ex1)) m
           = cacheKey P (baseCacheKey_of P rc2 (JObj ex2)) m"
proof -
  from assms(5-7) have "vs1 = vs2" by (rule same_order_same_object)
  moreover from assms(8-10) have "ex1 = ex2" by (rule same_order_same_object)
  ultimately have "baseCacheKey_of P rc1 (JObj ex1) = baseCacheKey_of P rc2 (JObj ex2)"
    using assms(1-4) by (simp add: baseCacheKey_of_def)
  then show ?thesis by (simp add: cacheKey_def)
qed

theorem same_key_order_same_key_witness:
  "print example_platform (document (context_with_variables vars_ab))
     = print example_platform (document ((context_with_variables vars_ab)\<lparr>ctx_cache := 7\<rparr>))
   \<and> operationName (context_with_variables vars_ab)
     = operationName ((context_with_variables vars_ab)\<lparr>ctx_cache := 7\<rparr>)
   \<and> variables (request (context_with_variables vars_ab)) = JObj vars_ab
   \<and> variables (request ((context_with_variables vars_ab)\<lparr>ctx_cache := 7\<rparr>)) = JObj vars_ab
   \<and> distinct (map fst vars_ab) \<and> distinct (map fst vars_ba)
   \<and> cacheKey example_platform
        (baseCacheKey_of example_platform (context_with_variables vars_ab) (JObj vars_ba)) Private
     = cacheKey example_platform
        (baseCacheKey_of example_platform
           ((context_with_variables vars_ab)\<lparr>ctx_cache := 7\<rparr>) (JObj vars_ba)) Private"
proof -
  let ?rc1 = "context_with_variables vars_ab"
  let ?rc2 = "(context_with_variables vars_ab)\<lparr>ctx_cache := 7\<rparr>"
  have p: "print example_platform (document ?rc1) = print example_platform (document ?rc2)"
    and n: "operationName ?rc1 = operationName ?rc2"
    and v1: "variables (request ?rc1) = JObj vars_ab"
    and v2: "variables (request ?rc2) = JObj vars_ab"
    by (simp_all add: context_with_variables_def)
  have d1: "distinct (map fst vars_ab)" and d2: "distinct (map fst vars_ba)"
    by (simp_all add: vars_ab_def vars_ba_def)
  from same_key_order_same_key [OF p n v1 v2 d1 refl refl d2 refl refl, of Private]
  show ?thesis using p n v1 v2 d1 d2 by blast
qed

section \<open>After execution\<close>

text \<open>
  Claim C4. For every response with a non-empty list of errors, or with no data payload
  (\<open>data\<close> absent or \<open>null\<close>), \<open>willSendResponse\<close> returns without an error, changes neither
  the listener's variables nor any store, and so performs no store write.
\<close>

theorem willSendResponse_rejects_errors_and_missing_data:
  assumes "(\<exists>e es. errors (response rc) = JArr (e # es))
           \<or> data (response rc) = JUndefined \<or> data (response rc) = JNull"
  shows "willSendResponse rc env st = (Inr (), env, st)
         \<and> writes (snd (snd (willSendResponse rc env st))) c = writes st c"
  using assms by (auto simp add: willSendResponse_def Let_def)

theorem willSendResponse_rejects_errors_and_missing_data_witness:
  "((\<exists>e es. errors (response failed_context) = JArr (e # es))
      \<or> data (response failed_context) = JUndefined \<or> data (response failed_context) = JNull)
   \<and> willSendResponse failed_context fresh_listener empty_stores
       = (Inr (), fresh_listener, empty_stores)
   \<and> writes (snd (snd (willSendResponse failed_context fresh_listener empty_stores))) 0
       = writes empty_stores 0"
proof -
  have h: "(\<exists>e es. errors (response failed_context) = JArr (e # es))
      \<or> data (response failed_context) = JUndefined \<or> data (response failed_context) = JNull"
    by simp
  from willSendResponse_rejects_errors_and_missing_data [OF h, of fresh_listener empty_stores 0] h
  show ?thesis by blast
qed

text \<open>
  Claim C3. The comments of the plugin say that a cachable response is saved in the store
  under a key tagged with its session mode, and that all writes are under keys that start
  with \<open>fqc:\<close>; \<open>willSendResponse\<close> ends after its two checks and saves nothing. For the
  anonymous example request the lookup is a miss and sets \<open>invokedHooks\<close>; the response
  then has data and no errors; \<open>willSendResponse\<close> returns without an error and leaves the
  listener's variables and the stores as the lookup left them: the store has received no
  write, where the claim says one.
\<close>

theorem eligible_response_is_not_written:
  "fst (execute example_platform anonymous_options eligible_context fresh_listener empty_stores)
     = Inr JNull
   \<and> invokedHooks listener_after_lookup
   \<and> \<not> truthy (errors (response eligible_context))
   \<and> truthy (data (response eligible_context))
   \<and> willSendResponse eligible_context listener_after_lookup stores_after_lookup
       = (Inr (), listener_after_lookup, stores_after_lookup)
   \<and> writes stores_after_lookup 0 = []
   \<and> writes (snd (snd (willSendResponse eligible_context listener_after_lookup
         stores_after_lookup))) 0 = []"
proof -
  have h1: "call_hook (opt_sessionId anonymous_options) eligible_context
              (sessionId fresh_listener) = Inr None"
    by (simp add: call_hook_def anonymous_options_def)
  have h2: "call_hook (opt_extraCacheKeyData anonymous_options) eligible_context
              (extraCacheKeyData fresh_listener) = Inr JNull"
    by (simp add: call_hook_def anonymous_options_def)
  have miss: "parsed_entry example_platform empty_stores 0 k = Inr JNull" for k
    by (simp add: parsed_entry_def empty_stores_def example_stores_def)
  have e: "execute example_platform anonymous_options eligible_context fresh_listener
             empty_stores =
           (Inr JNull,
            fresh_listener\<lparr>sessionId := None, extraCacheKeyData := JNull, invokedHooks := True\<rparr>,
            after_reads empty_stores 0
              [''fqc:'' @ cacheKey example_platform
                 (baseCacheKey_of example_platform eligible_context JNull) NoSession])"
    using h1 h2 by (simp add: execute_def Let_def cacheGet_reads miss)
  have w0: "writes empty_stores 0 = []"
    by (simp add: writes_def empty_stores_def example_stores_def)
  have flag: "invokedHooks listener_after_lookup"
    by (simp add: listener_after_lookup_def e)
  have w1: "writes stores_after_lookup 0 = []"
    by (simp add: stores_after_lookup_def e w0)
  have w: "willSendResponse eligible_context listener_after_lookup stores_after_lookup
             = (Inr (), listener_after_lookup, stores_after_lookup)"
    using flag by (simp add: willSendResponse_def Let_def)
  from e flag w w1 show ?thesis by simp
qed

text \<open>
  Claim C5, as stated, fails: with the flag \<open>invokedHooks\<close> false and a response that has
  an error, \<open>willSendResponse\<close> returns without raising, since the check of the response
  comes first.
\<close>

theorem willSendResponse_guard_counterexample:
  "invokedHooks fresh_listener = False
   \<and> willSendResponse failed_context fresh_listener empty_stores
       = (Inr (), fresh_listener, empty_stores)"
  by (simp add: willSendResponse_def Let_def)

text \<open>
  Claim C5, amended. For every request in which \<open>willSendResponse\<close> is invoked with a
  response that has no errors (no \<open>errors\<close> field) and has a data payload while the flag
  \<open>invokedHooks\<close> is false, it raises the fatal error and performs no store write.
\<close>

theorem willSendResponse_guard:
  assumes "\<not> invokedHooks env"
    and "\<not> truthy (errors (response rc))" and "truthy (data (response rc))"
  shows "willSendResponse rc env st =
           (Inl (Error ''willSendResponse called without error, but execute not called?''),
            env, st)
         \<and> writes (snd (snd (willSendResponse rc env st))) c = writes st c"
  using assms by (simp add: willSendResponse_def Let_def)

theorem willSendResponse_guard_witness:
  "\<not> invokedHooks fresh_listener
   \<and> \<not> truthy (errors (response eligible_context))
   \<and> truthy (data (response eligible_context))
   \<and> willSendResponse eligible_context fresh_listener empty_stores =
       (Inl (Error ''willSendResponse called without error, but execute not called?''),
        fresh_listener, empty_stores)"
  using willSendResponse_guard [of fresh_listener eligible_context empty_stores 0]
  by simp

section \<open>No store write\<close>

lemma execute_stores:
  "\<exists>ks. length ks \<le> 2 \<and> snd (snd (execute P options rc env st)) = after_reads st (wrapped (cache env)) ks"
proof -
  have 0: "\<exists>ks. length ks \<le> 2 \<and> st = after_reads st c ks" for c
    by (rule exI [of _ "[]"]) simp
  have 1: "\<exists>ks. length ks \<le> 2 \<and> after_reads st c [k] = after_reads st c ks" for c k
    by (rule exI [of _ "[k]"]) simp
  have 2: "\<exists>ks. length ks \<le> 2 \<and> after_reads st c [k, k'] = after_reads st c ks" for c k k'
    by (rule exI [of _ "[k, k']"]) simp
  show ?thesis
    by (simp add: execute_def Let_def cacheGet_reads 0 1 2 split: sum.split option.split)
qed

text \<open>
  Claim C10. No operation of the plugin writes to a store. Whatever the request and the
  response, \<open>execute\<close> leaves the stores as they were except for at most two reads received
  by the store its cache wraps, \<open>cacheGet\<close> adds exactly one read, and \<open>willSendResponse\<close>
  calls no store at all; the entries of every store and the writes it has received are
  unchanged.
\<close>

theorem plugin_never_writes:
  "(\<exists>ks. length ks \<le> 2 \<and>
          snd (snd (execute P options rc env st)) = after_reads st (wrapped (cache env)) ks)
   \<and> entries (snd (snd (execute P options rc env st)) c) = entries (st c)
   \<and> writes (snd (snd (execute P options rc env st))) c = writes st c
   \<and> snd (cacheGet P env b m st)
        = after_reads st (wrapped (cache env)) [prefix (cache env) @ cacheKey P b m]
   \<and> snd (snd (willSendResponse rc env st)) = st"
proof -
  obtain ks where "snd (snd (execute P options rc env st)) = after_reads st (wrapped (cache env)) ks"
      and "length ks \<le> 2"
    using execute_stores by blast
  moreover have "snd (snd (willSendResponse rc env st)) = st"
    by (simp add: willSendResponse_def Let_def)
  ultimately show ?thesis
    by (auto simp add: cacheGet_reads)
qed

section \<open>Requests do not share variables\<close>

lemma execute_same_entries:
  assumes "\<forall>c. entries (st1 c) = entries (st2 c)"
  shows "\<exists>r env' ks.
           execute P options rc env st1 = (r, env', after_reads st1 (wrapped (cache env)) ks)
         \<and> execute P options rc env st2 = (r, env', after_reads st2 (wrapped (cache env)) ks)"
proof -
  have pe: "parsed_entry P st1 c k = parsed_entry P st2 c k" for c k
    using assms by (simp add: parsed_entry_def)
  have 0: "\<exists>ks. st1 = after_reads st1 c ks \<and> st2 = after_reads st2 c ks" for c
    by (rule exI [of _ "[]"]) simp
  have 1: "\<exists>ks. after_reads st1 c l = after_reads st1 c ks
               \<and> after_reads st2 c l = after_reads st2 c ks" for c l
    by (rule exI [of _ l]) simp
  show ?thesis
    by (simp add: execute_def Let_def cacheGet_reads pe 0 1 split: sum.split option.split)
qed

lemma willSendResponse_state:
  "\<exists>r. willSendResponse rc env st = (r, env, st) \<and> (\<forall>st'. willSendResponse rc env st' = (r, env, st'))"
  by (simp add: willSendResponse_def Let_def)

lemma same_lookup_if:
  assumes "h < length (listeners srv)" and "h < length (listeners srv1)"
    and "listeners srv1 ! h = listeners srv ! h"
    and "\<And>c. entries (the_stores srv c) = entries (the_stores srv1 c)"
  shows "same_lookup P options h rc srv srv1"
proof -
  from assms(4) have "\<forall>c. entries (the_stores srv c) = entries (the_stores srv1 c)"
    by simp
  from execute_same_entries [OF this, of P options rc "listeners srv ! h"]
  obtain r env' ks where
    "execute P options rc (listeners srv ! h) (the_stores srv)
       = (r, env', after_reads (the_stores srv) (wrapped (cache (listeners srv ! h))) ks)"
    "execute P options rc (listeners srv ! h) (the_stores srv1)
       = (r, env', after_reads (the_stores srv1) (wrapped (cache (listeners srv ! h))) ks)"
    by blast
  with assms(1-3) show ?thesis
    unfolding same_lookup_def srv_execute_def by auto
qed

lemma same_write_phase_if:
  assumes "h < length (listeners srv)" and "h < length (listeners srv1)"
    and "listeners srv1 ! h = listeners srv ! h"
  shows "same_write_phase h rc srv srv1"
proof -
  from willSendResponse_state [of rc "listeners srv ! h" "the_stores srv"]
  obtain r where "\<And>st'. willSendResponse rc (listeners srv ! h) st' = (r, listeners srv ! h, st')"
    by blast
  moreover have "(listeners srv1)[h := listeners srv ! h] = listeners srv1"
    using assms(3) list_update_id [of "listeners srv1" h] by simp
  ultimately show ?thesis
    using assms unfolding same_write_phase_def srv_willSendResponse_def
    by (simp add: list_update_id)
qed

lemma srv_execute_other:
  assumes "h < length (listeners srv)" and "h' < length (listeners srv)" and "h \<noteq> h'"
  shows "h' < length (listeners (snd (srv_execute P options h rc srv)))"
    and "listeners (snd (srv_execute P options h rc srv)) ! h' = listeners srv ! h'"
    and "entries (the_stores srv c) = entries (the_stores (snd (srv_execute P options h rc srv)) c)"
proof -
  obtain r env' st' where e: "execute P options rc (listeners srv ! h) (the_stores srv) = (r, env', st')"
    by (cases "execute P options rc (listeners srv ! h) (the_stores srv)") auto
  from execute_stores [of P options rc "listeners srv ! h" "the_stores srv"] e
  obtain ks where "st' = after_reads (the_stores srv) (wrapped (cache (listeners srv ! h))) ks"
    by auto
  with e assms show "h' < length (listeners (snd (srv_execute P options h rc srv)))"
    and "listeners (snd (srv_execute P options h rc srv)) ! h' = listeners srv ! h'"
    and "entries (the_stores srv c) = entries (the_stores (snd (srv_execute P options h rc srv)) c)"
    by (simp_all add: srv_execute_def)
qed

lemma srv_willSendResponse_other:
  assumes "h < length (listeners srv)"
  shows "snd (srv_willSendResponse h rc srv) = srv"
  using assms willSendResponse_state [of rc "listeners srv ! h" "the_stores srv"]
  by (auto simp add: srv_willSendResponse_def list_update_id)

text \<open>
  Claim C9. Every call of \<open>requestDidStart\<close> creates fresh variables with
  \<open>invokedHooks = false\<close>, \<open>sessionId = null\<close> and \<open>extraCacheKeyData = null\<close>, and leaves
  the variables of the listeners that exist untouched. For two distinct requests \<open>h\<close> and
  \<open>h'\<close> of a server, whatever \<open>h\<close> does (its hooks and lookup in \<open>execute\<close>, its
  \<open>willSendResponse\<close>) and whatever request is started, the variables of \<open>h'\<close> stay as
  they were, and \<open>h'\<close> then looks up and runs its write phase exactly as it would have done
  before: same result, same variables afterwards, same keys read.
\<close>

theorem per_request_state:
  assumes "h < length (listeners srv)" and "h' < length (listeners srv)" and "h \<noteq> h'"
  shows "invokedHooks (requestDidStart options outer) = False
       \<and> sessionId (requestDidStart options outer) = None
       \<and> extraCacheKeyData (requestDidStart options outer) = JNull
       \<and> fst (srv_requestDidStart options outer srv) = length (listeners srv)
       \<and> listeners (snd (srv_requestDidStart options outer srv)) ! length (listeners srv)
           = requestDidStart options outer
       \<and> listeners (snd (srv_requestDidStart options outer srv)) ! h' = listeners srv ! h'
       \<and> listeners (snd (srv_execute P options h rc srv)) ! h' = listeners srv ! h'
       \<and> listeners (snd (srv_willSendResponse h rc srv)) ! h' = listeners srv ! h'
       \<and> same_lookup P' options' h' rc' srv (snd (srv_requestDidStart options outer srv))
       \<and> same_lookup P' options' h' rc' srv (snd (srv_execute P options h rc srv))
       \<and> same_lookup P' options' h' rc' srv (snd (srv_willSendResponse h rc srv))
       \<and> same_write_phase h' rc' srv (snd (srv_requestDidStart options outer srv))
       \<and> same_write_phase h' rc' srv (snd (srv_execute P options h rc srv))
       \<and> same_write_phase h' rc' srv (snd (srv_willSendResponse h rc srv))"
proof -
  let ?s1 = "snd (srv_requestDidStart options outer srv)"
  let ?s2 = "snd (srv_execute P options h rc srv)"
  let ?s3 = "snd (srv_willSendResponse h rc srv)"
  have fresh: "invokedHooks (requestDidStart options outer) = False"
      "sessionId (requestDidStart options outer) = None"
      "extraCacheKeyData (requestDidStart options outer) = JNull"
    by (simp_all add: requestDidStart_def)
  have s1: "fst (srv_requestDidStart options outer srv) = length (listeners srv)"
      "listeners ?s1 ! length (listeners srv) = requestDidStart options outer"
      "listeners ?s1 ! h' = listeners srv ! h'" "h' < length (listeners ?s1)"
      "\<And>c. entries (the_stores srv c) = entries (the_stores ?s1 c)"
    using assms(2) by (simp_all add: srv_requestDidStart_def nth_append)
  note s2 = srv_execute_other [OF assms]
  have s3: "?s3 = srv" using assms(1) by (rule srv_willSendResponse_other)
  have l1: "same_lookup P' options' h' rc' srv ?s1"
    using assms(2) s1(4) s1(3) s1(5) by (rule same_lookup_if)
  have l2: "same_lookup P' options' h' rc' srv ?s2"
    using assms(2) s2(1) s2(2) s2(3) by (rule same_lookup_if)
  have l3: "same_lookup P' options' h' rc' srv ?s3"
    unfolding s3 using assms(2) assms(2) refl refl by (rule same_lookup_if)
  have w1: "same_write_phase h' rc' srv ?s1"
    using assms(2) s1(4) s1(3) by (rule same_write_phase_if)
  have w2: "same_write_phase h' rc' srv ?s2"
    using assms(2) s2(1) s2(2) by (rule same_write_phase_if)
  have w3: "same_write_phase h' rc' srv ?s3"
    unfolding s3 using assms(2) assms(2) refl by (rule same_write_phase_if)
  from fresh s1(1-3) s2(2) s3 l1 l2 l3 w1 w2 w3 show ?thesis by simp
qed

theorem per_request_state_witness:
  "(0::nat) < length (listeners example_server) \<and> (1::nat) < length (listeners example_server)
   \<and> (0::nat) \<noteq> 1
   \<and> listeners (snd (srv_execute example_platform session_options 0 eligible_context
         example_server)) ! 1 = listeners example_server ! 1
   \<and> same_lookup example_platform anonymous_options 1 eligible_context example_server
       (snd (srv_execute example_platform session_options 0 eligible_context example_server))
   \<and> same_write_phase 1 eligible_context example_server
       (snd (srv_execute example_platform session_options 0 eligible_context example_server))"
proof -
  have h: "(0::nat) < length (listeners example_server)"
    and h': "(1::nat) < length (listeners example_server)"
    by (simp_all add: example_server_def)
  have d: "(0::nat) \<noteq> 1" by simp
  from per_request_state [OF h h' d, where P = example_platform and options = session_options
      and rc = eligible_context and P' = example_platform and options' = anonymous_options
      and rc' = eligible_context and outer = eligible_context] h h'
  show ?thesis by simp
qed

end
